theory Spec2Isabelle
  imports Main
begin

section \<open>The grid filter of \<open>submatrix.py\<close>\<close>

text \<open>
  The program holds one global list, \<^verbatim>\<open>nums = list(range(16))\<close>, one function
  \<^verbatim>\<open>submatrix(row, col)\<close> that filters it by position, and a driving loop over
  \<^verbatim>\<open>range(4)\<close> twice that collects the sixteen results and prints them.

  Python integers are unbounded, so \<open>row\<close>, \<open>col\<close> and the index \<open>i\<close> are \<^typ>\<open>int\<close>.
  Python's \<^verbatim>\<open>%\<close> with the positive divisor 4 is the floored remainder, which is
  \<open>mod\<close> on \<^typ>\<open>int\<close>.
\<close>

subsection \<open>Value-level model\<close>

text \<open>\<^verbatim>\<open>nums = list(range(16))\<close>\<close>

definition nums :: "int list" where
  "nums = map int [0..<16]"

text \<open>\<^verbatim>\<open>enumerate(xs)\<close>: the pairs of a running index, from 0, and the item.\<close>

fun enumerate_from :: "int \<Rightarrow> 'a list \<Rightarrow> (int \<times> 'a) list" where
  "enumerate_from n [] = []"
| "enumerate_from n (x # xs) = (n, x) # enumerate_from (n + 1) xs"

text \<open>
  The body of the \<^verbatim>\<open>for (i, item) in enumerate(nums)\<close> loop, with the local list
  \<^verbatim>\<open>result\<close> as accumulator; \<^verbatim>\<open>result.append(item)\<close> adds at the end.
\<close>

fun submatrix_loop :: "int \<Rightarrow> int \<Rightarrow> (int \<times> 'a) list \<Rightarrow> 'a list \<Rightarrow> 'a list" where
  "submatrix_loop row col [] result = result"
| "submatrix_loop row col ((i, item) # rest) result =
     (if (i - col) mod 4 \<noteq> 0 \<and> (i \<ge> (row + 1) * 4 \<or> i < row * 4)
      then submatrix_loop row col rest (result @ [item])
      else submatrix_loop row col rest result)"

text \<open>The function over an arbitrary source list, and over the global \<open>nums\<close>.\<close>

definition submatrix_on :: "'a list \<Rightarrow> int \<Rightarrow> int \<Rightarrow> 'a list" where
  "submatrix_on ns row col = submatrix_loop row col (enumerate_from 0 ns) []"

definition submatrix :: "int \<Rightarrow> int \<Rightarrow> int list" where
  "submatrix row col = submatrix_on nums row col"

text \<open>
  The test of the loop body as a predicate on the index, used to state facts about the
  loop: \<open>keeps row col i\<close> is the condition under which item \<open>i\<close> is appended.
\<close>

definition keeps :: "int \<Rightarrow> int \<Rightarrow> int \<Rightarrow> bool" where
  "keeps row col i \<longleftrightarrow> (i - col) mod 4 \<noteq> 0 \<and> (i \<ge> (row + 1) * 4 \<or> i < row * 4)"

subsection \<open>The direct column test of the specification\<close>

text \<open>
  The specification describes column membership as \<^verbatim>\<open>i % 4 == col\<close> and recommends
  that test in place of the subtraction. \<open>submatrix_direct\<close> is the same loop written with
  it; it follows the specification's wording, not the source, and is compared with
  \<open>submatrix\<close> below.
\<close>

fun submatrix_direct_loop :: "int \<Rightarrow> int \<Rightarrow> (int \<times> 'a) list \<Rightarrow> 'a list \<Rightarrow> 'a list" where
  "submatrix_direct_loop row col [] result = result"
| "submatrix_direct_loop row col ((i, item) # rest) result =
     (if i mod 4 \<noteq> col \<and> (i \<ge> (row + 1) * 4 \<or> i < row * 4)
      then submatrix_direct_loop row col rest (result @ [item])
      else submatrix_direct_loop row col rest result)"

definition submatrix_direct :: "int \<Rightarrow> int \<Rightarrow> int list" where
  "submatrix_direct row col = submatrix_direct_loop row col (enumerate_from 0 nums) []"

subsection \<open>Store-level model\<close>

text \<open>
  Python lists are mutable objects reached through references, so whether \<open>nums\<close> stays
  untouched is a property of the store. Here every list of integers lives in a heap at an
  address; a fresh list takes the next free address. The global name \<^verbatim>\<open>nums\<close> is
  bound to an address (\<open>g_nums\<close>), and the global \<^verbatim>\<open>result\<close> holds the references of
  the lists appended to it (\<open>g_result\<close>).
\<close>

type_synonym addr = nat

record pystate =
  heap :: "addr \<Rightarrow> int list option"
  fresh :: addr
  g_nums :: addr
  g_result :: "addr list"

text \<open>
  The \<^verbatim>\<open>for\<close> loop of \<^verbatim>\<open>submatrix\<close> on the store. Python's list iterator keeps
  a position \<open>i\<close> and, at each step, compares it with the current length of the list at
  \<open>src\<close>; \<^verbatim>\<open>result.append(item)\<close> writes the list at \<open>res\<close>. Were \<open>res\<close> the list
  being iterated, the loop would not end, hence a partial function: \<open>None\<close> stands for a
  run that does not return (or reads an unallocated address).
\<close>

partial_function (option) submatrix_iter ::
  "int \<Rightarrow> int \<Rightarrow> addr \<Rightarrow> addr \<Rightarrow> nat \<Rightarrow> (addr \<Rightarrow> int list option) \<Rightarrow> (addr \<Rightarrow> int list option) option"
where
  "submatrix_iter row col src res i h =
     (case h src of
        None \<Rightarrow> None
      | Some xs \<Rightarrow>
          if i < length xs then
            (if (int i - col) mod 4 \<noteq> 0 \<and> (int i \<ge> (row + 1) * 4 \<or> int i < row * 4)
             then (case h res of
                     None \<Rightarrow> None
                   | Some acc \<Rightarrow> submatrix_iter row col src res (Suc i) (h(res \<mapsto> acc @ [xs ! i])))
             else submatrix_iter row col src res (Suc i) h)
          else Some h)"

text \<open>
  A call of \<^verbatim>\<open>submatrix(row, col)\<close>: \<^verbatim>\<open>result = []\<close> allocates the local list, the
  loop runs over the list that \<^verbatim>\<open>nums\<close> names, and the reference of the local list is
  returned.
\<close>

definition submatrix_st :: "int \<Rightarrow> int \<Rightarrow> pystate \<Rightarrow> (addr \<times> pystate) option" where
  "submatrix_st row col s =
     (let res = fresh s in
      case submatrix_iter row col (g_nums s) res 0 ((heap s)(res \<mapsto> [])) of
        None \<Rightarrow> None
      | Some h \<Rightarrow> Some (res, s\<lparr>heap := h, fresh := Suc res\<rparr>))"

text \<open>
  The driving loops: \<^verbatim>\<open>for j in range(4): result.append(submatrix(i, j))\<close> inside
  \<^verbatim>\<open>for i in range(4)\<close>.
\<close>

fun inner_loop :: "int \<Rightarrow> int list \<Rightarrow> pystate \<Rightarrow> pystate option" where
  "inner_loop i [] s = Some s"
| "inner_loop i (j # js) s =
     (case submatrix_st i j s of
        None \<Rightarrow> None
      | Some (a, s') \<Rightarrow> inner_loop i js (s'\<lparr>g_result := g_result s' @ [a]\<rparr>))"

fun outer_loop :: "int list \<Rightarrow> pystate \<Rightarrow> pystate option" where
  "outer_loop [] s = Some s"
| "outer_loop (i # is) s =
     (case inner_loop i [0, 1, 2, 3] s of
        None \<Rightarrow> None
      | Some s' \<Rightarrow> outer_loop is s')"

text \<open>
  The state after \<^verbatim>\<open>nums = list(range(16))\<close> and \<^verbatim>\<open>result = []\<close>, and the whole
  program up to \<^verbatim>\<open>print\<close>.
\<close>

definition init_state :: pystate where
  "init_state = \<lparr>heap = Map.empty(0 \<mapsto> nums), fresh = 1, g_nums = 0, g_result = []\<rparr>"

definition main :: "pystate option" where
  "main = outer_loop [0, 1, 2, 3] init_state"

text \<open>What \<^verbatim>\<open>print(result)\<close> shows: the lists that the references in \<open>g_result\<close> name.\<close>

fun deref_all :: "(addr \<Rightarrow> int list option) \<Rightarrow> addr list \<Rightarrow> int list list option" where
  "deref_all h [] = Some []"
| "deref_all h (a # as) =
     (case h a of
        None \<Rightarrow> None
      | Some xs \<Rightarrow> (case deref_all h as of None \<Rightarrow> None | Some xss \<Rightarrow> Some (xs # xss)))"

definition printed :: "pystate \<Rightarrow> int list list option" where
  "printed s = deref_all (heap s) (g_result s)"

text \<open>
  The state invariant of the frame property: \<^verbatim>\<open>nums\<close> names an allocated list with
  contents \<open>xs\<close>, and no entry of the result collection is that list.
\<close>

definition nums_intact :: "int list \<Rightarrow> pystate \<Rightarrow> bool" where
  "nums_intact xs s \<longleftrightarrow>
     g_nums s < fresh s \<and> heap s (g_nums s) = Some xs \<and> g_nums s \<notin> set (g_result s)"

section \<open>Properties\<close>

subsection \<open>The source list\<close>

lemma nums_eq: "nums = [0, 1, 2, 3, 4, 5, 6, 7, 8, 9, 10, 11, 12, 13, 14, 15]"
  by (simp add: nums_def upt_rec)

lemma nums_nth: "i < 16 \<Longrightarrow> nums ! i = int i"
  by (simp add: nums_def)

lemma length_nums: "length nums = 16"
  by (simp add: nums_def)

lemma set_nums: "i \<in> set nums \<Longrightarrow> 0 \<le> i \<and> i \<le> 15"
  by (auto simp: nums_def)

lemma sorted_nums: "sorted_wrt (<) nums"
  by (simp add: nums_eq)

subsection \<open>The loop as a filter on positions\<close>

lemma submatrix_loop_filter:
  "submatrix_loop row col ps acc = acc @ map snd (filter (\<lambda>p. keeps row col (fst p)) ps)"
  by (induction ps arbitrary: acc) (auto simp: keeps_def)

lemma enumerate_from_map:
  "enumerate_from n xs = map (\<lambda>k. (n + int k, xs ! k)) [0..<length xs]"
proof (induction xs arbitrary: n)
  case Nil
  show ?case by simp
next
  case (Cons x xs)
  have "[0..<length (x # xs)] = 0 # map Suc [0..<length xs]"
    by (simp add: upt_conv_Cons map_Suc_upt del: upt_Suc)
  then show ?case
    by (simp add: Cons.IH comp_def add.assoc del: upt_Suc)
qed

lemma submatrix_on_index:
  "submatrix_on ns row col =
     map (\<lambda>i. ns ! i) (filter (\<lambda>i. keeps row col (int i)) [0..<length ns])"
  by (simp add: submatrix_on_def submatrix_loop_filter enumerate_from_map filter_map comp_def)

lemma submatrix_filter: "submatrix row col = filter (keeps row col) nums"
proof -
  have "submatrix row col = map (\<lambda>i. nums ! i) (filter (\<lambda>i. keeps row col (int i)) [0..<16])"
    by (simp add: submatrix_def submatrix_on_index length_nums)
  also have "\<dots> = map int (filter (\<lambda>i. keeps row col (int i)) [0..<16])"
    by (rule map_cong) (auto simp: nums_nth)
  also have "\<dots> = filter (keeps row col) nums"
    by (simp add: nums_def filter_map comp_def)
  finally show ?thesis .
qed

text \<open>
  Claim C1: for \<open>row\<close> and \<open>col\<close> in \<open>{0,1,2,3}\<close>, \<open>submatrix(row, col)\<close> is exactly the
  elements \<open>nums[i]\<close>, for \<open>i\<close> ascending over \<open>0..15\<close>, at which \<open>(i - col) mod 4 \<noteq> 0\<close> and
  \<open>i \<ge> (row+1)*4 \<or> i < row*4\<close> both hold. The choice depends on the position only: the
  same positions are taken from any list of 16 items, whatever their values.
\<close>

theorem submatrix_positional:
  assumes "row \<in> {0, 1, 2, 3}" and "col \<in> {0, 1, 2, 3}"
  shows "submatrix row col =
           map (\<lambda>i. nums ! i)
             (filter (\<lambda>i. (int i - col) mod 4 \<noteq> 0 \<and> (int i \<ge> (row + 1) * 4 \<or> int i < row * 4))
                [0..<16])
         \<and> (\<forall>ns :: 'a list. length ns = 16 \<longrightarrow>
               submatrix_on ns row col =
                 map (\<lambda>i. ns ! i)
                   (filter (\<lambda>i. (int i - col) mod 4 \<noteq> 0 \<and> (int i \<ge> (row + 1) * 4 \<or> int i < row * 4))
                      [0..<16]))"
  by (simp add: submatrix_def submatrix_on_index keeps_def length_nums)

theorem submatrix_positional_witness:
  "(1::int) \<in> {0, 1, 2, 3} \<and> (2::int) \<in> {0, 1, 2, 3}
   \<and> submatrix 1 2 = [0, 1, 3, 8, 9, 11, 12, 13, 15]
   \<and> submatrix_on ''abcdefghijklmnop'' 1 2 = ''abdijlmnp''"
proof -
  have r: "(1::int) \<in> {0, 1, 2, 3}" and c: "(2::int) \<in> {0, 1, 2, 3}" by simp_all
  have idx: "filter (\<lambda>i. (int i - 2) mod 4 \<noteq> 0 \<and> (int i \<ge> (1 + 1) * 4 \<or> int i < 1 * 4)) [0..<16]
               = [0, 1, 3, 8, 9, 11, 12, 13, 15]"
    by (simp add: upt_rec)
  from submatrix_positional [OF r c, where 'a = char]
  have "submatrix 1 2 = map (\<lambda>i. nums ! i) [0, 1, 3, 8, 9, 11, 12, 13, 15]"
    and "submatrix_on ''abcdefghijklmnop'' 1 2 =
           map (\<lambda>i. ''abcdefghijklmnop'' ! i) [0, 1, 3, 8, 9, 11, 12, 13, 15]"
    unfolding idx by simp_all
  then show ?thesis using r c by (simp add: nums_eq)
qed

subsection \<open>Concrete scenarios\<close>

text \<open>
  Claim C5: \<open>submatrix(0, 0)\<close> over \<open>nums = [0..15]\<close> is \<open>[5, 6, 7, 9, 10, 11, 13, 14, 15]\<close>,
  of length 9: the row band \<open>[0,4)\<close> and the column-0 indices \<open>0, 4, 8, 12\<close> are left out.
\<close>

theorem submatrix_0_0:
  "submatrix 0 0 = [5, 6, 7, 9, 10, 11, 13, 14, 15] \<and> length (submatrix 0 0) = 9"
  by (simp add: submatrix_def submatrix_on_def nums_eq)

text \<open>
  Claim C6: \<open>submatrix(3, 3)\<close> is \<open>[0, 1, 2, 4, 5, 6, 8, 9, 10]\<close>, of length 9: the row band
  \<open>[12,16)\<close> and the column-3 indices \<open>3, 7, 11, 15\<close> are left out.
\<close>

theorem submatrix_3_3:
  "submatrix 3 3 = [0, 1, 2, 4, 5, 6, 8, 9, 10] \<and> length (submatrix 3 3) = 9"
  by (simp add: submatrix_def submatrix_on_def nums_eq)

subsection \<open>Lengths\<close>

text \<open>
  Any \<open>col\<close> acts as \<open>col mod 4\<close>, and any \<open>row\<close> outside \<open>0..3\<close> acts as a row whose band
  misses the sixteen indices; this leaves twenty cases, each one evaluated.
\<close>

lemma keeps_col_mod: "keeps row (col mod 4) i = keeps row col i"
  by (simp add: keeps_def mod_diff_right_eq)

lemma keeps_row_outside:
  "\<not> (0 \<le> row \<and> row \<le> 3) \<Longrightarrow> 0 \<le> i \<Longrightarrow> i \<le> 15 \<Longrightarrow> keeps row col i = keeps 4 col i"
  by (auto simp: keeps_def)

lemma col_mod_cases: "(col::int) mod 4 \<in> {0, 1, 2, 3}"
proof -
  have "0 \<le> col mod 4" "col mod 4 < 4" by simp_all
  then show ?thesis by auto
qed

lemma submatrix_normalise:
  "submatrix row col = submatrix (if 0 \<le> row \<and> row \<le> 3 then row else 4) (col mod 4)"
proof -
  have "keeps row col i = keeps (if 0 \<le> row \<and> row \<le> 3 then row else 4) (col mod 4) i"
    if "i \<in> set nums" for i
  proof (cases "0 \<le> row \<and> row \<le> 3")
    case True
    then show ?thesis by (simp add: keeps_col_mod)
  next
    case False
    from set_nums [OF that] have "keeps row col i = keeps 4 col i"
      using False by (intro keeps_row_outside) auto
    with False show ?thesis by (simp add: keeps_col_mod)
  qed
  then have "filter (keeps row col) nums =
        filter (keeps (if 0 \<le> row \<and> row \<le> 3 then row else 4) (col mod 4)) nums"
    by (intro filter_cong refl)
  then show ?thesis by (simp only: submatrix_filter)
qed

lemma length_submatrix_grid:
  "r \<in> {0, 1, 2, 3, 4} \<Longrightarrow> c \<in> {0, 1, 2, 3} \<Longrightarrow>
   length (submatrix r c) = (if r = 4 then 12 else 9)"
  by (elim insertE emptyE; simp add: submatrix_filter keeps_def nums_eq)

lemma length_submatrix_all:
  "length (submatrix row col) = (if 0 \<le> row \<and> row \<le> 3 then 9 else 12)"
proof -
  have r: "(if 0 \<le> row \<and> row \<le> 3 then row else 4) \<in> {0, 1, 2, 3, 4}" by auto
  show ?thesis
    using length_submatrix_grid [OF r col_mod_cases [of col]]
    by (subst submatrix_normalise) (auto split: if_splits)
qed

lemma column_class_size_grid:
  "c \<in> {0, 1, 2, 3} \<Longrightarrow> length (filter (\<lambda>i. (i - c) mod 4 = 0) nums) = 4"
  by (elim insertE emptyE; simp add: nums_eq)

lemma column_class_size: "length (filter (\<lambda>i. (i - col) mod 4 = 0) nums) = 4"
proof -
  have "filter (\<lambda>i. (i - col) mod 4 = 0) nums = filter (\<lambda>i. (i - col mod 4) mod 4 = 0) nums"
    by (simp add: mod_diff_right_eq)
  then show ?thesis
    using column_class_size_grid [OF col_mod_cases [of col]] by simp
qed

text \<open>
  Claim C2: for \<open>row\<close> and \<open>col\<close> in \<open>{0,1,2,3}\<close> the result has exactly 9 elements: of the
  16 indices, 4 lie in the row band, 4 in the column class, and exactly 1 in both.
\<close>

theorem submatrix_length_9:
  assumes "row \<in> {0, 1, 2, 3}" and "col \<in> {0, 1, 2, 3}"
  shows "length (submatrix row col) = 9
         \<and> length (filter (\<lambda>i. row * 4 \<le> i \<and> i < row * 4 + 4) nums) = 4
         \<and> length (filter (\<lambda>i. i mod 4 = col) nums) = 4
         \<and> length (filter (\<lambda>i. (row * 4 \<le> i \<and> i < row * 4 + 4) \<and> i mod 4 = col) nums) = 1"
proof (intro conjI)
  from assms have "0 \<le> row \<and> row \<le> 3" by auto
  then show "length (submatrix row col) = 9" by (simp add: length_submatrix_all)
  show "length (filter (\<lambda>i. row * 4 \<le> i \<and> i < row * 4 + 4) nums) = 4"
    using assms(1) by (elim insertE emptyE; simp add: nums_eq)
  show "length (filter (\<lambda>i. i mod 4 = col) nums) = 4"
    using assms(2) by (elim insertE emptyE; simp add: nums_eq)
  show "length (filter (\<lambda>i. (row * 4 \<le> i \<and> i < row * 4 + 4) \<and> i mod 4 = col) nums) = 1"
    using assms by (elim insertE emptyE; simp add: nums_eq)
qed

theorem submatrix_length_9_witness:
  "(2::int) \<in> {0, 1, 2, 3} \<and> (1::int) \<in> {0, 1, 2, 3} \<and> length (submatrix 2 1) = 9"
proof -
  have r: "(2::int) \<in> {0, 1, 2, 3}" and c: "(1::int) \<in> {0, 1, 2, 3}" by simp_all
  from submatrix_length_9 [OF r c] show ?thesis by simp
qed

text \<open>
  Claim C10: for all integers \<open>row\<close> and \<open>col\<close> the result is not empty; its length is 9
  when \<open>0 \<le> row \<le> 3\<close> and 12 otherwise. The column test leaves out exactly 4 of the
  indices \<open>0..15\<close> for every \<open>col\<close>, and the row band \<open>[row*4, row*4+4)\<close> contains none of
  them when \<open>row\<close> is outside \<open>0..3\<close>.
\<close>

theorem submatrix_length_any:
  "submatrix row col \<noteq> []
   \<and> length (submatrix row col) = (if 0 \<le> row \<and> row \<le> 3 then 9 else 12)
   \<and> length (filter (\<lambda>i. (i - col) mod 4 = 0) nums) = 4
   \<and> (\<not> (0 \<le> row \<and> row \<le> 3) \<longrightarrow>
        (\<forall>i \<in> set nums. \<not> (row * 4 \<le> i \<and> i < row * 4 + 4)))"
proof (intro conjI)
  show len: "length (submatrix row col) = (if 0 \<le> row \<and> row \<le> 3 then 9 else 12)"
    by (rule length_submatrix_all)
  have "0 < length (submatrix row col)" by (simp add: len)
  then show "submatrix row col \<noteq> []" by blast
  show "length (filter (\<lambda>i. (i - col) mod 4 = 0) nums) = 4"
    by (rule column_class_size)
  show "\<not> (0 \<le> row \<and> row \<le> 3) \<longrightarrow> (\<forall>i \<in> set nums. \<not> (row * 4 \<le> i \<and> i < row * 4 + 4))"
    by (auto dest!: set_nums)
qed

theorem submatrix_length_any_witness:
  "length (submatrix 2 (- 5)) = 9 \<and> length (submatrix (- 1) 7) = 12
   \<and> length (submatrix 4 0) = 12 \<and> submatrix 100 100 \<noteq> []
   \<and> \<not> (0 \<le> (- 1::int) \<and> (- 1::int) \<le> 3)
   \<and> length (filter (\<lambda>i. (i - 7) mod 4 = 0) nums) = 4"
  using submatrix_length_any [of 2 "- 5"] submatrix_length_any [of "- 1" 7]
    submatrix_length_any [of 4 0] submatrix_length_any [of 100 100]
  by simp

subsection \<open>Order\<close>

text \<open>
  Claim C7: for \<open>row\<close> and \<open>col\<close> in \<open>{0,1,2,3}\<close> the result is strictly increasing, element
  by element.
\<close>

theorem submatrix_strictly_increasing:
  assumes "row \<in> {0, 1, 2, 3}" and "col \<in> {0, 1, 2, 3}"
  shows "sorted_wrt (<) (submatrix row col)"
  by (simp add: submatrix_filter sorted_wrt_filter sorted_nums)

theorem submatrix_strictly_increasing_witness:
  "(0::int) \<in> {0, 1, 2, 3} \<and> (3::int) \<in> {0, 1, 2, 3} \<and> sorted_wrt (<) (submatrix 0 3)
   \<and> submatrix 0 3 = [4, 5, 6, 8, 9, 10, 12, 13, 14]"
proof -
  have r: "(0::int) \<in> {0, 1, 2, 3}" and c: "(3::int) \<in> {0, 1, 2, 3}" by simp_all
  have v: "submatrix 0 3 = [4, 5, 6, 8, 9, 10, 12, 13, 14]"
    by (simp add: submatrix_def submatrix_on_def nums_eq)
  from submatrix_strictly_increasing [OF r c] show ?thesis using v by simp
qed

subsection \<open>The column test\<close>

lemma column_test_iff:
  "0 \<le> col \<Longrightarrow> col \<le> 3 \<Longrightarrow> ((i - col) mod 4 \<noteq> 0) = (i mod 4 \<noteq> (col::int))"
  by presburger

lemma submatrix_direct_loop_eq:
  "0 \<le> col \<Longrightarrow> col \<le> 3 \<Longrightarrow>
   submatrix_direct_loop row col ps acc = submatrix_loop row col ps acc"
  by (induction row col ps acc rule: submatrix_loop.induct) (simp_all add: column_test_iff)

text \<open>
  Claim C4: for \<open>i\<close> in \<open>0..15\<close> and \<open>col\<close> in \<open>{0,1,2,3}\<close>, the test \<open>(i - col) mod 4 \<noteq> 0\<close> of
  the code agrees with the direct test \<open>i mod 4 \<noteq> col\<close>; hence \<open>submatrix\<close> equals the
  function written with the direct test.
\<close>

theorem column_test_equivalent:
  assumes "col \<in> {0, 1, 2, 3}"
  shows "(\<forall>i \<in> {0..15}. ((i - col) mod 4 \<noteq> 0) = (i mod 4 \<noteq> col))
         \<and> submatrix row col = submatrix_direct row col"
proof -
  from assms have c: "0 \<le> col" "col \<le> 3" by auto
  then show ?thesis
    by (simp add: column_test_iff submatrix_direct_loop_eq submatrix_def submatrix_on_def
        submatrix_direct_def)
qed

theorem column_test_equivalent_witness:
  "(3::int) \<in> {0, 1, 2, 3} \<and> (0::int) \<in> {0..15}
   \<and> (((0::int) - 3) mod 4 \<noteq> 0) = ((0::int) mod 4 \<noteq> 3)
   \<and> submatrix 3 3 = submatrix_direct 3 3
   \<and> submatrix_direct 3 3 = [0, 1, 2, 4, 5, 6, 8, 9, 10]"
proof -
  have c: "(3::int) \<in> {0, 1, 2, 3}" by simp
  have d: "submatrix_direct 3 3 = [0, 1, 2, 4, 5, 6, 8, 9, 10]"
    by (simp add: submatrix_direct_def nums_eq)
  from column_test_equivalent [OF c, of 3] show ?thesis using d by simp
qed

subsection \<open>Runs on the store\<close>

text \<open>
  When the list written is not the list read, the loop returns after the last position,
  and the store differs only at \<open>res\<close>, which has gained the kept items.
\<close>

lemma submatrix_iter_run:
  assumes "src \<noteq> res" and "h src = Some xs" and "h res = Some acc" and "i \<le> length xs"
  shows "submatrix_iter row col src res i h =
           Some (h(res \<mapsto> acc @ map (\<lambda>k. xs ! k) (filter (\<lambda>k. keeps row col (int k)) [i..<length xs])))"
  using assms
proof (induction "length xs - i" arbitrary: i h acc)
  case 0
  then have "i = length xs" by simp
  with 0 show ?case
    by (subst submatrix_iter.simps) (simp add: fun_upd_idem)
next
  case (Suc n)
  then have lt: "i < length xs" by simp
  then have upt: "[i..<length xs] = i # [Suc i..<length xs]" by (simp add: upt_conv_Cons)
  show ?case
  proof (cases "keeps row col (int i)")
    case True
    let ?h = "h(res \<mapsto> acc @ [xs ! i])"
    have "submatrix_iter row col src res i h = submatrix_iter row col src res (Suc i) ?h"
      using True lt Suc.prems by (subst submatrix_iter.simps) (simp add: keeps_def)
    also have "\<dots> = Some (?h(res \<mapsto> (acc @ [xs ! i]) @
        map (\<lambda>k. xs ! k) (filter (\<lambda>k. keeps row col (int k)) [Suc i..<length xs])))"
      using Suc.hyps(2) Suc.prems lt by (intro Suc.hyps(1)) auto
    finally show ?thesis using True by (simp add: upt)
  next
    case False
    have "submatrix_iter row col src res i h = submatrix_iter row col src res (Suc i) h"
      using False lt Suc.prems by (subst submatrix_iter.simps) (auto simp: keeps_def)
    also have "\<dots> = Some (h(res \<mapsto> acc @
        map (\<lambda>k. xs ! k) (filter (\<lambda>k. keeps row col (int k)) [Suc i..<length xs])))"
      using Suc.hyps(2) Suc.prems lt by (intro Suc.hyps(1)) auto
    finally show ?thesis using False by (simp add: upt)
  qed
qed

lemma submatrix_iter_keeps_src:
  assumes "src \<noteq> res" and "h src = Some xs" and "h res = Some acc" and "i \<le> length xs"
  shows "\<exists>h'. submatrix_iter row col src res i h = Some h' \<and> h' src = Some xs"
  using assms by (simp add: submatrix_iter_run)

text \<open>The call on the store computes what the value-level function computes.\<close>

lemma submatrix_st_run:
  assumes "g_nums s < fresh s" and "heap s (g_nums s) = Some xs"
  shows "submatrix_st row col s =
           Some (fresh s, s\<lparr>heap := (heap s)(fresh s \<mapsto> submatrix_on xs row col), fresh := Suc (fresh s)\<rparr>)"
proof -
  have "submatrix_iter row col (g_nums s) (fresh s) 0 ((heap s)(fresh s \<mapsto> [])) =
        Some (((heap s)(fresh s \<mapsto> []))(fresh s \<mapsto> [] @ map (\<lambda>k. xs ! k)
               (filter (\<lambda>k. keeps row col (int k)) [0..<length xs])))"
    using assms by (intro submatrix_iter_run) auto
  then show ?thesis
    by (simp add: submatrix_st_def submatrix_on_index Let_def)
qed

lemma submatrix_st_intact:
  assumes "nums_intact xs s"
  shows "\<exists>a s'. submatrix_st row col s = Some (a, s') \<and> a \<noteq> g_nums s \<and> g_nums s' = g_nums s
           \<and> g_result s' = g_result s \<and> heap s' a = Some (submatrix_on xs row col)
           \<and> nums_intact xs s'"
  using assms by (simp add: nums_intact_def submatrix_st_run)

lemma inner_loop_intact:
  "nums_intact xs s \<Longrightarrow>
   \<exists>s'. inner_loop i js s = Some s' \<and> g_nums s' = g_nums s \<and> nums_intact xs s'"
proof (induction js arbitrary: s)
  case Nil
  then show ?case by simp
next
  case (Cons j js)
  from submatrix_st_intact [OF Cons.prems, of i j]
  obtain a s1 where call: "submatrix_st i j s = Some (a, s1)" and a: "a \<noteq> g_nums s"
    and g: "g_nums s1 = g_nums s" and ok: "nums_intact xs s1"
    by blast
  let ?s2 = "s1\<lparr>g_result := g_result s1 @ [a]\<rparr>"
  from a g ok have "nums_intact xs ?s2" by (simp add: nums_intact_def)
  from Cons.IH [OF this] obtain s' where
    "inner_loop i js ?s2 = Some s'" "g_nums s' = g_nums ?s2" "nums_intact xs s'"
    by blast
  with call g show ?case by simp
qed

lemma outer_loop_intact:
  "nums_intact xs s \<Longrightarrow>
   \<exists>s'. outer_loop is s = Some s' \<and> g_nums s' = g_nums s \<and> nums_intact xs s'"
proof (induction "is" arbitrary: s)
  case Nil
  then show ?case by simp
next
  case (Cons i "is")
  from inner_loop_intact [OF Cons.prems, of i "[0, 1, 2, 3]"]
  obtain s1 where inner: "inner_loop i [0, 1, 2, 3] s = Some s1"
    and g: "g_nums s1 = g_nums s" and ok: "nums_intact xs s1"
    by blast
  from Cons.IH [OF ok] obtain s' where
    "outer_loop is s1 = Some s'" "g_nums s' = g_nums s1" "nums_intact xs s'"
    by blast
  with inner g show ?case by simp
qed

lemma init_state_intact: "nums_intact nums init_state"
  by (simp add: nums_intact_def init_state_def)

lemma main_run:
  "\<exists>s. main = Some s
     \<and> printed s = Some (concat (map (\<lambda>row. map (\<lambda>col. submatrix row col) [0, 1, 2, 3]) [0, 1, 2, 3]))
     \<and> heap s (g_nums s) = Some nums \<and> g_nums s \<notin> set (g_result s)"
  by (simp add: main_def init_state_def submatrix_st_run printed_def submatrix_def)

subsection \<open>No error for any integers\<close>

text \<open>
  Claim C8: for all integers \<open>row\<close> and \<open>col\<close>, also outside \<open>0..3\<close>, the call returns a
  list and raises nothing: there is no range check, and the result is the items at the
  positions that the index arithmetic keeps.
\<close>

theorem submatrix_returns_normally:
  assumes "nums_intact xs s"
  shows "\<exists>a s'. submatrix_st row col s = Some (a, s')
           \<and> heap s' a = Some (submatrix_on xs row col)
           \<and> submatrix_on xs row col =
               map (\<lambda>i. xs ! i)
                 (filter (\<lambda>i. (int i - col) mod 4 \<noteq> 0 \<and> (int i \<ge> (row + 1) * 4 \<or> int i < row * 4))
                    [0..<length xs])"
  using submatrix_st_intact [OF assms, of row col]
  by (auto simp: submatrix_on_index keeps_def)

theorem submatrix_returns_normally_witness:
  "nums_intact nums init_state
   \<and> (\<exists>a s'. submatrix_st (- 1) 7 init_state = Some (a, s')
         \<and> heap s' a = Some [0, 1, 2, 4, 5, 6, 8, 9, 10, 12, 13, 14])
   \<and> (\<exists>a s'. submatrix_st 100 (- 100) init_state = Some (a, s')
         \<and> heap s' a = Some [1, 2, 3, 5, 6, 7, 9, 10, 11, 13, 14, 15])"
proof -
  have i: "nums_intact nums init_state"
    by (simp add: nums_intact_def init_state_def)
  have a: "submatrix_on nums (- 1) 7 = [0, 1, 2, 4, 5, 6, 8, 9, 10, 12, 13, 14]"
    and b: "submatrix_on nums 100 (- 100) = [1, 2, 3, 5, 6, 7, 9, 10, 11, 13, 14, 15]"
    by (simp_all add: submatrix_on_def nums_eq)
  from submatrix_returns_normally [OF i, of "- 1" 7]
    submatrix_returns_normally [OF i, of 100 "- 100"]
  show ?thesis using i unfolding a b by blast
qed

subsection \<open>The source list is only read\<close>

text \<open>
  Claim C9: \<open>nums\<close> is \<open>[0, 1, ..., 15]\<close> throughout the program. It holds at the start;
  every step of the loop inside \<open>submatrix\<close>, every call of \<open>submatrix\<close>, and the inner and
  the outer driving loop from any state leave the list that \<open>nums\<close> names as it was, and
  the list a call returns is never that list; so it holds when the program ends.
\<close>

theorem nums_never_mutated:
  "nums = [0, 1, 2, 3, 4, 5, 6, 7, 8, 9, 10, 11, 12, 13, 14, 15]
   \<and> nums_intact nums init_state
   \<and> (\<forall>row col src res i h xs acc.
        src \<noteq> res \<and> h src = Some xs \<and> h res = Some acc \<and> i \<le> length xs \<longrightarrow>
        (\<exists>h'. submatrix_iter row col src res i h = Some h' \<and> h' src = Some xs))
   \<and> (\<forall>row col s xs. nums_intact xs s \<longrightarrow>
        (\<exists>a s'. submatrix_st row col s = Some (a, s') \<and> a \<noteq> g_nums s \<and> g_nums s' = g_nums s
           \<and> nums_intact xs s'))
   \<and> (\<forall>i js s xs. nums_intact xs s \<longrightarrow>
        (\<exists>s'. inner_loop i js s = Some s' \<and> g_nums s' = g_nums s \<and> nums_intact xs s'))
   \<and> (\<forall>is s xs. nums_intact xs s \<longrightarrow>
        (\<exists>s'. outer_loop is s = Some s' \<and> g_nums s' = g_nums s \<and> nums_intact xs s'))
   \<and> (\<exists>s. main = Some s \<and> heap s (g_nums s) = Some nums \<and> g_nums s \<notin> set (g_result s))"
proof (intro conjI allI impI)
  show "nums = [0, 1, 2, 3, 4, 5, 6, 7, 8, 9, 10, 11, 12, 13, 14, 15]"
    by (rule nums_eq)
  show "nums_intact nums init_state"
    by (rule init_state_intact)
  show "\<exists>h'. submatrix_iter row col src res i h = Some h' \<and> h' src = Some xs"
    if "src \<noteq> res \<and> h src = Some xs \<and> h res = Some acc \<and> i \<le> length xs"
    for row col src res i h xs acc
    using that by (intro submatrix_iter_keeps_src) auto
  show "\<exists>a s'. submatrix_st row col s = Some (a, s') \<and> a \<noteq> g_nums s \<and> g_nums s' = g_nums s
           \<and> nums_intact xs s'"
    if "nums_intact xs s" for row col s xs
    using submatrix_st_intact [OF that, of row col] by blast
  show "\<exists>s'. inner_loop i js s = Some s' \<and> g_nums s' = g_nums s \<and> nums_intact xs s'"
    if "nums_intact xs s" for i js s xs
    using that by (rule inner_loop_intact)
  show "\<exists>s'. outer_loop is s = Some s' \<and> g_nums s' = g_nums s \<and> nums_intact xs s'"
    if "nums_intact xs s" for "is" s xs
    using that by (rule outer_loop_intact)
  from outer_loop_intact [OF init_state_intact, of "[0, 1, 2, 3]"]
  show "\<exists>s. main = Some s \<and> heap s (g_nums s) = Some nums \<and> g_nums s \<notin> set (g_result s)"
    by (auto simp: main_def nums_intact_def)
qed

theorem nums_never_mutated_witness:
  "nums_intact nums init_state
   \<and> (\<exists>h'. submatrix_iter 1 2 0 1 0 ((Map.empty(0 \<mapsto> nums))(1 \<mapsto> [])) = Some h'
         \<and> h' 0 = Some [0, 1, 2, 3, 4, 5, 6, 7, 8, 9, 10, 11, 12, 13, 14, 15])
   \<and> (\<exists>a s'. submatrix_st 1 2 init_state = Some (a, s') \<and> a \<noteq> g_nums init_state
         \<and> heap s' (g_nums s') = Some [0, 1, 2, 3, 4, 5, 6, 7, 8, 9, 10, 11, 12, 13, 14, 15])
   \<and> (\<exists>s'. inner_loop 1 [0, 1, 2, 3] init_state = Some s'
         \<and> heap s' (g_nums s') = Some [0, 1, 2, 3, 4, 5, 6, 7, 8, 9, 10, 11, 12, 13, 14, 15])
   \<and> (\<exists>s'. outer_loop [0, 1, 2, 3] init_state = Some s'
         \<and> heap s' (g_nums s') = Some [0, 1, 2, 3, 4, 5, 6, 7, 8, 9, 10, 11, 12, 13, 14, 15])"
proof -
  let ?h = "(Map.empty((0::addr) \<mapsto> nums))((1::addr) \<mapsto> [])"
  have i: "nums_intact nums init_state"
    by (simp add: nums_intact_def init_state_def)
  have p: "(0::nat) \<noteq> 1 \<and> ?h 0 = Some nums \<and> ?h 1 = Some [] \<and> 0 \<le> length nums"
    by simp
  note t = nums_never_mutated
  from t have n: "nums = [0, 1, 2, 3, 4, 5, 6, 7, 8, 9, 10, 11, 12, 13, 14, 15]"
    by blast
  from t have "\<forall>row col src res i h xs acc.
        src \<noteq> res \<and> h src = Some xs \<and> h res = Some acc \<and> i \<le> length xs \<longrightarrow>
        (\<exists>h'. submatrix_iter row col src res i h = Some h' \<and> h' src = Some xs)"
    by blast
  with p have w1: "\<exists>h'. submatrix_iter 1 2 0 1 0 ?h = Some h' \<and> h' 0 = Some nums"
    by blast
  from t have "\<forall>row col s xs. nums_intact xs s \<longrightarrow>
        (\<exists>a s'. submatrix_st row col s = Some (a, s') \<and> a \<noteq> g_nums s \<and> g_nums s' = g_nums s
           \<and> nums_intact xs s')"
    by blast
  with i have "\<exists>a s'. submatrix_st 1 2 init_state = Some (a, s') \<and> a \<noteq> g_nums init_state
      \<and> g_nums s' = g_nums init_state \<and> nums_intact nums s'"
    by blast
  then have w2: "\<exists>a s'. submatrix_st 1 2 init_state = Some (a, s') \<and> a \<noteq> g_nums init_state
      \<and> heap s' (g_nums s') = Some nums"
    by (auto simp: nums_intact_def)
  from t have "\<forall>i js s xs. nums_intact xs s \<longrightarrow>
        (\<exists>s'. inner_loop i js s = Some s' \<and> g_nums s' = g_nums s \<and> nums_intact xs s')"
    by blast
  with i have "\<exists>s'. inner_loop 1 [0, 1, 2, 3] init_state = Some s'
      \<and> g_nums s' = g_nums init_state \<and> nums_intact nums s'"
    by blast
  then have w3: "\<exists>s'. inner_loop 1 [0, 1, 2, 3] init_state = Some s'
      \<and> heap s' (g_nums s') = Some nums"
    by (auto simp: nums_intact_def)
  from t have "\<forall>is s xs. nums_intact xs s \<longrightarrow>
        (\<exists>s'. outer_loop is s = Some s' \<and> g_nums s' = g_nums s \<and> nums_intact xs s')"
    by blast
  with i have "\<exists>s'. outer_loop [0, 1, 2, 3] init_state = Some s'
      \<and> g_nums s' = g_nums init_state \<and> nums_intact nums s'"
    by blast
  then have w4: "\<exists>s'. outer_loop [0, 1, 2, 3] init_state = Some s'
      \<and> heap s' (g_nums s') = Some nums"
    by (auto simp: nums_intact_def)
  from i w1 w2 w3 w4 show ?thesis unfolding n by blast
qed

subsection \<open>The output\<close>

text \<open>
  Claim C3: the program ends with a collection of exactly 16 entries, the results of
  \<open>submatrix(row, col)\<close> appended for \<open>row\<close> from 0 to 3 and, inside, \<open>col\<close> from 0 to 3. The
  entry at position \<open>4*row + col\<close> is \<open>submatrix(row, col)\<close>, the first is \<open>submatrix(0, 0)\<close>,
  the last is \<open>submatrix(3, 3)\<close>, and the entries hold 144 integers in all.
\<close>

theorem program_output:
  "\<exists>s out. main = Some s \<and> printed s = Some out
     \<and> out = concat (map (\<lambda>row. map (\<lambda>col. submatrix row col) [0, 1, 2, 3]) [0, 1, 2, 3])
     \<and> length out = 16
     \<and> (\<forall>row \<in> {0, 1, 2, 3}. \<forall>col \<in> {0, 1, 2, 3}. out ! nat (4 * row + col) = submatrix row col)
     \<and> hd out = submatrix 0 0 \<and> last out = submatrix 3 3
     \<and> sum_list (map length out) = 144"
proof -
  let ?out = "concat (map (\<lambda>row. map (\<lambda>col. submatrix row col) [0, 1, 2, 3]) [0, 1, 2, 3])"
  from main_run obtain s where s: "main = Some s" "printed s = Some ?out"
    by blast
  have pos: "\<forall>row \<in> {0, 1, 2, 3}. \<forall>col \<in> {0, 1, 2, 3}. ?out ! nat (4 * row + col) = submatrix row col"
    by simp
  have tot: "sum_list (map length ?out) = 144"
    by (simp add: length_submatrix_all)
  have "length ?out = 16" "hd ?out = submatrix 0 0" "last ?out = submatrix 3 3"
    by simp_all
  with s pos tot show ?thesis by blast
qed

theorem program_output_witness:
  "(2::int) \<in> {0, 1, 2, 3} \<and> (1::int) \<in> {0, 1, 2, 3}
   \<and> (\<exists>s out. main = Some s \<and> printed s = Some out \<and> length out = 16
         \<and> out ! 9 = [0, 2, 3, 4, 6, 7, 12, 14, 15])"
proof -
  have r: "(2::int) \<in> {0, 1, 2, 3}" and c: "(1::int) \<in> {0, 1, 2, 3}" by simp_all
  have v: "submatrix 2 1 = [0, 2, 3, 4, 6, 7, 12, 14, 15]"
    by (simp add: submatrix_def submatrix_on_def nums_eq)
  from program_output obtain s out where
    "main = Some s" "printed s = Some out" "length out = 16"
    and pos: "\<forall>row \<in> {0, 1, 2, 3}. \<forall>col \<in> {0, 1, 2, 3}. out ! nat (4 * row + col) = submatrix row col"
    by blast
  moreover from pos r c have "out ! nat (4 * 2 + 1) = submatrix 2 1" by blast
  then have "out ! 9 = [0, 2, 3, 4, 6, 7, 12, 14, 15]" by (simp add: v)
  ultimately show ?thesis using r c by blast
qed

end
